theory Spec2Isabelle
  imports Complex_Main "HOL-Library.Multiset" "HOL-Library.Sublist"
begin

section \<open>JavaScript dates\<close>

text \<open>
  A \<open>Date\<close> holds a time value: an integral number of milliseconds since the epoch, or
  NaN for an invalid date. It is modelled as \<open>int option\<close>, \<open>None\<close> being the invalid
  date. The functions below follow the abstract operations of the language definition
  that \<open>new Date(year, month, day)\<close> runs. The local time zone is a constant offset
  \<open>tz\<close> in milliseconds east of UTC (no daylight saving change is modelled).
\<close>

type_synonym jsdate = "int option"

definition msPerDay :: int where
  "msPerDay = 86400000"

definition DayFromYear :: "int \<Rightarrow> int" where
  "DayFromYear y =
     365 * (y - 1970) + (y - 1969) div 4 - (y - 1901) div 100 + (y - 1601) div 400"

definition InLeapYear :: "int \<Rightarrow> bool" where
  "InLeapYear y =
     (if y mod 4 \<noteq> 0 then False
      else if y mod 100 \<noteq> 0 then True
      else if y mod 400 \<noteq> 0 then False
      else True)"

text \<open>Number of days between 1 January and the first day of month \<open>mn\<close> (0 to 11).\<close>

definition monthStart :: "bool \<Rightarrow> int \<Rightarrow> int" where
  "monthStart leap mn =
     (if mn = 0 then 0
      else if mn = 1 then 31
      else ([59, 90, 120, 151, 181, 212, 243, 273, 304, 334] ! nat (mn - 2))
           + (if leap then 1 else 0))"

definition MakeDay :: "int \<Rightarrow> int \<Rightarrow> int \<Rightarrow> int" where
  "MakeDay year month dt =
     (let ym = year + month div 12;
          mn = month mod 12
      in DayFromYear ym + monthStart (InLeapYear ym) mn + dt - 1)"

definition TimeClip :: "int \<Rightarrow> jsdate" where
  "TimeClip t = (if \<bar>t\<bar> > 8640000000000000 then None else Some t)"

text \<open>
  \<open>new Date(year, month, day)\<close>: a year from 0 to 99 stands for 1900 + year; the time
  of day is midnight local time.
\<close>

definition newDate :: "int \<Rightarrow> int \<Rightarrow> int \<Rightarrow> int \<Rightarrow> jsdate" where
  "newDate tz year month dt =
     (let yr = (if 0 \<le> year \<and> year \<le> 99 then 1900 + year else year)
      in TimeClip (MakeDay yr month dt * msPerDay - tz))"

text \<open>Relational comparison of two dates: false as soon as one of them is invalid.\<close>

fun date_ge :: "jsdate \<Rightarrow> jsdate \<Rightarrow> bool" where
  "date_ge (Some a) (Some b) = (a \<ge> b)"
| "date_ge _ _ = False"

fun date_le :: "jsdate \<Rightarrow> jsdate \<Rightarrow> bool" where
  "date_le (Some a) (Some b) = (a \<le> b)"
| "date_le _ _ = False"

section \<open>Month filter\<close>

text \<open>
  \<open>isCommitInMonth\<close> reads the globals \<open>targetDatesYear\<close> and \<open>targetDatesMonth\<close>;
  they are parameters here.
\<close>

definition isCommitInMonth :: "int \<Rightarrow> int \<Rightarrow> int \<Rightarrow> jsdate \<Rightarrow> bool" where
  "isCommitInMonth tz targetDatesYear targetDatesMonth commitDate =
     (let startOfMonth = newDate tz targetDatesYear targetDatesMonth 1;
          endOfMonth = newDate tz targetDatesYear (targetDatesMonth + 1) 0
      in date_ge commitDate startOfMonth \<and> date_le commitDate endOfMonth)"

text \<open>
  The instants the month-boundary property speaks of: the first millisecond of the
  target month and the last one, which is the millisecond before the first instant of
  the following month.
\<close>

definition firstInstant :: "int \<Rightarrow> int \<Rightarrow> int \<Rightarrow> int" where
  "firstInstant tz year month = MakeDay year month 1 * msPerDay - tz"

definition lastInstant :: "int \<Rightarrow> int \<Rightarrow> int \<Rightarrow> int" where
  "lastInstant tz year month = MakeDay year (month + 1) 1 * msPerDay - tz - 1"

section \<open>JavaScript numbers\<close>

text \<open>
  A number is a real or one of the special values of IEEE arithmetic. The operations
  \<open>jsadd\<close>, \<open>jsmul\<close> and \<open>jsdiv\<close> of this section give the exact result of two finite
  numbers; they describe the runs whose operations are all exact in double precision,
  and the results on special values. The operations that round and overflow are those
  of the section on double-precision arithmetic, built on these, and the positivity of
  the durations is proved of them. The sign of a zero is not modelled; the two divisors
  of this program that can be zero (an array length and a sum accumulated from \<open>0\<close>)
  are never the negative zero, so a division by zero takes the sign of the dividend.
\<close>

datatype jsnum = Num real | PosInf | NegInf | NaN

definition infOfSign :: "real \<Rightarrow> jsnum" where
  "infOfSign s = (if s > 0 then PosInf else if s < 0 then NegInf else NaN)"

fun jsadd :: "jsnum \<Rightarrow> jsnum \<Rightarrow> jsnum" where
  "jsadd (Num a) (Num b) = Num (a + b)"
| "jsadd NaN _ = NaN"
| "jsadd _ NaN = NaN"
| "jsadd PosInf NegInf = NaN"
| "jsadd NegInf PosInf = NaN"
| "jsadd PosInf _ = PosInf"
| "jsadd _ PosInf = PosInf"
| "jsadd NegInf _ = NegInf"
| "jsadd _ NegInf = NegInf"

fun jsmul :: "jsnum \<Rightarrow> jsnum \<Rightarrow> jsnum" where
  "jsmul (Num a) (Num b) = Num (a * b)"
| "jsmul NaN _ = NaN"
| "jsmul _ NaN = NaN"
| "jsmul (Num a) PosInf = infOfSign a"
| "jsmul (Num a) NegInf = infOfSign (- a)"
| "jsmul PosInf (Num b) = infOfSign b"
| "jsmul NegInf (Num b) = infOfSign (- b)"
| "jsmul PosInf PosInf = PosInf"
| "jsmul NegInf NegInf = PosInf"
| "jsmul PosInf NegInf = NegInf"
| "jsmul NegInf PosInf = NegInf"

fun jsdiv :: "jsnum \<Rightarrow> jsnum \<Rightarrow> jsnum" where
  "jsdiv (Num a) (Num b) = (if b = 0 then infOfSign a else Num (a / b))"
| "jsdiv NaN _ = NaN"
| "jsdiv _ NaN = NaN"
| "jsdiv (Num a) PosInf = Num 0"
| "jsdiv (Num a) NegInf = Num 0"
| "jsdiv PosInf (Num b) = (if b \<ge> 0 then PosInf else NegInf)"
| "jsdiv NegInf (Num b) = (if b \<ge> 0 then NegInf else PosInf)"
| "jsdiv _ _ = NaN"

subsection \<open>Rendering with two decimals\<close>

fun digits :: "nat \<Rightarrow> string" where
  "digits n =
     (if n < 10 then [''0123456789'' ! n]
      else digits (n div 10) @ [''0123456789'' ! (n mod 10)])"

declare digits.simps [simp del]

text \<open>
  The decimal digits of \<open>n\<close> hundredths, padded with zeros to three digits at least,
  with the point before the last two.
\<close>

definition fixedDigits :: "nat \<Rightarrow> string" where
  "fixedDigits n =
     (let m = digits n;
          m' = (if length m \<le> 2 then replicate (3 - length m) CHR ''0'' @ m else m);
          k = length m'
      in take (k - 2) m' @ ''.'' @ drop (k - 2) m')"

text \<open>
  \<open>x.toFixed(2)\<close>: the integer \<open>n\<close> with \<open>n / 100\<close> closest to \<open>\<bar>x\<bar>\<close>, the larger one
  of two. From \<open>10 ^ 21\<close> on the result is \<open>Number::toString\<close> of \<open>\<bar>x\<bar>\<close>, which depends
  on the digits of the double: that function is the parameter \<open>numberToString\<close>.
\<close>

definition toFixed2 :: "(real \<Rightarrow> string) \<Rightarrow> jsnum \<Rightarrow> string" where
  "toFixed2 numberToString x =
     (case x of
        NaN \<Rightarrow> ''NaN''
      | PosInf \<Rightarrow> ''Infinity''
      | NegInf \<Rightarrow> ''-Infinity''
      | Num r \<Rightarrow>
          (let s = (if r < 0 then ''-'' else []);
               a = \<bar>r\<bar>
           in if a \<ge> 10 ^ 21 then s @ numberToString a
              else s @ fixedDigits (nat \<lfloor>a * 100 + 1 / 2\<rfloor>)))"

section \<open>Duration allocator\<close>

text \<open>
  \<open>Math.random\<close> is the sequence \<open>rnd\<close> of its results: \<open>rnd k\<close> is what the \<open>k\<close>-th call
  returns, a number from 0 (included) to 1 (excluded). \<open>distributeTimeEvenly\<close> calls it
  once for \<open>targetHours\<close> and then once per entry, in index order.
\<close>

definition validDraws :: "(nat \<Rightarrow> real) \<Rightarrow> nat \<Rightarrow> bool" where
  "validDraws rnd n = list_all (\<lambda>k. 0 \<le> rnd k \<and> rnd k < 1) [0..<Suc n]"

text \<open>
  The body of \<open>distributeTimeEvenly\<close> in three steps, so that the properties can name
  its intermediate values: the constant \<open>targetHours\<close>, the array \<open>timeArray\<close> built
  from \<open>baseTime\<close>, and the times multiplied by \<open>adjustmentFactor\<close>, to which the
  function applies \<open>toFixed(2)\<close>.
\<close>

definition targetHours :: "(nat \<Rightarrow> real) \<Rightarrow> real \<Rightarrow> real \<Rightarrow> real" where
  "targetHours rnd totalHours variation = totalHours + (rnd 0 * variation * 2 - variation)"

definition timeArray :: "(nat \<Rightarrow> real) \<Rightarrow> nat \<Rightarrow> real \<Rightarrow> real \<Rightarrow> jsnum list" where
  "timeArray rnd numEntries totalHours variation =
     (let baseTime = jsdiv (Num (targetHours rnd totalHours variation)) (Num (real numEntries))
      in map (\<lambda>i. jsadd baseTime (Num (rnd (Suc i) * 2 - 0.5))) [0..<numEntries])"

definition adjustedTimes :: "(nat \<Rightarrow> real) \<Rightarrow> nat \<Rightarrow> real \<Rightarrow> real \<Rightarrow> jsnum list" where
  "adjustedTimes rnd numEntries totalHours variation =
     (let times = timeArray rnd numEntries totalHours variation;
          sum = foldl jsadd (Num 0) times;
          adjustmentFactor = jsdiv (Num (targetHours rnd totalHours variation)) sum
      in map (\<lambda>time. jsmul time adjustmentFactor) times)"

definition distributeTimeEvenly ::
  "(real \<Rightarrow> string) \<Rightarrow> (nat \<Rightarrow> real) \<Rightarrow> nat \<Rightarrow> real \<Rightarrow> real \<Rightarrow> string list" where
  "distributeTimeEvenly numberToString rnd numEntries totalHours variation =
     map (toFixed2 numberToString) (adjustedTimes rnd numEntries totalHours variation)"

section \<open>Double-precision arithmetic\<close>

text \<open>
  The numbers of the program are IEEE doubles. \<open>double x\<close> says that the real \<open>x\<close> is
  one: an integer of less than 53 bits times a power of two from \<open>2 ^ -1074\<close> to
  \<open>2 ^ 971\<close>. Every arithmetic operation returns the exact result rounded to the
  nearest double, and an infinity when the rounded result is beyond the largest double.
  The operations take the rounding as a parameter \<open>rd\<close>; the rounding of the program is
  \<open>roundNearest\<close>. \<open>rounding rd\<close> records the three properties of it that the proofs
  use: it is monotone, it leaves a double unchanged, and from \<open>2 ^ -1022\<close> on its
  relative error is at most \<open>2 ^ -53\<close>.
\<close>

definition double :: "real \<Rightarrow> bool" where
  "double x =
     (\<exists>(m::int) (e::nat). \<bar>m\<bar> < 2 ^ 53 \<and>
        ((e \<le> 971 \<and> x = of_int m * 2 ^ e) \<or> (e \<le> 1074 \<and> x = of_int m / 2 ^ e)))"

definition rounding :: "(real \<Rightarrow> real) \<Rightarrow> bool" where
  "rounding rd =
     ((\<forall>x y. x \<le> y \<longrightarrow> rd x \<le> rd y)
      \<and> (\<forall>x. double x \<longrightarrow> rd x = x)
      \<and> (\<forall>x. 1 / 2 ^ 1022 \<le> \<bar>x\<bar> \<longrightarrow> \<bar>rd x - x\<bar> \<le> \<bar>x\<bar> / 2 ^ 53))"

subsection \<open>Rounding to nearest\<close>

text \<open>
  The rounding of IEEE arithmetic, to the nearest double and to the one with an even
  significand when two are as near. \<open>ulp x\<close> is the distance between the doubles around
  \<open>x\<close>: \<open>2 ^ -1074\<close> below \<open>2 ^ -1022\<close>, and 52 binary places below the leading one
  from there on; the exponent is not bounded from above here, \<open>fl\<close> turns what exceeds
  the largest double into an infinity.
\<close>

definition ulpExp :: "real \<Rightarrow> int" where
  "ulpExp x = max (\<lfloor>log 2 \<bar>x\<bar>\<rfloor> - 52) (- 1074)"

definition ulp :: "real \<Rightarrow> real" where
  "ulp x = 2 powr of_int (ulpExp x)"

definition roundEven :: "real \<Rightarrow> int" where
  "roundEven y =
     (let f = \<lfloor>y\<rfloor>
      in if y - of_int f < 1 / 2 then f
         else if 1 / 2 < y - of_int f then f + 1
         else if even f then f else f + 1)"

definition roundNearest :: "real \<Rightarrow> real" where
  "roundNearest x = of_int (roundEven (x / ulp x)) * ulp x"

definition maxDouble :: real where
  "maxDouble = (2 ^ 53 - 1) * 2 ^ 971"

definition fl :: "(real \<Rightarrow> real) \<Rightarrow> real \<Rightarrow> jsnum" where
  "fl rd x =
     (if rd x > maxDouble then PosInf
      else if rd x < - maxDouble then NegInf
      else Num (rd x))"

fun jsneg :: "jsnum \<Rightarrow> jsnum" where
  "jsneg (Num a) = Num (- a)"
| "jsneg PosInf = NegInf"
| "jsneg NegInf = PosInf"
| "jsneg NaN = NaN"

fun fadd :: "(real \<Rightarrow> real) \<Rightarrow> jsnum \<Rightarrow> jsnum \<Rightarrow> jsnum" where
  "fadd rd (Num a) (Num b) = fl rd (a + b)"
| "fadd rd x y = jsadd x y"

fun fsub :: "(real \<Rightarrow> real) \<Rightarrow> jsnum \<Rightarrow> jsnum \<Rightarrow> jsnum" where
  "fsub rd (Num a) (Num b) = fl rd (a - b)"
| "fsub rd x y = jsadd x (jsneg y)"

fun fmul :: "(real \<Rightarrow> real) \<Rightarrow> jsnum \<Rightarrow> jsnum \<Rightarrow> jsnum" where
  "fmul rd (Num a) (Num b) = fl rd (a * b)"
| "fmul rd x y = jsmul x y"

fun fdiv :: "(real \<Rightarrow> real) \<Rightarrow> jsnum \<Rightarrow> jsnum \<Rightarrow> jsnum" where
  "fdiv rd (Num a) (Num b) = (if b = 0 then infOfSign a else fl rd (a / b))"
| "fdiv rd x y = jsdiv x y"

subsection \<open>The allocator in double precision\<close>

text \<open>
  \<open>distributeTimeEvenly\<close> with every operation of its body rounded, in the order in
  which the expressions of the source evaluate.
\<close>

definition targetHoursR :: "(real \<Rightarrow> real) \<Rightarrow> (nat \<Rightarrow> real) \<Rightarrow> real \<Rightarrow> real \<Rightarrow> jsnum" where
  "targetHoursR rd rnd hours variation =
     fadd rd (Num hours)
       (fsub rd (fmul rd (fmul rd (Num (rnd 0)) (Num variation)) (Num 2)) (Num variation))"

definition timeArrayR ::
  "(real \<Rightarrow> real) \<Rightarrow> (nat \<Rightarrow> real) \<Rightarrow> nat \<Rightarrow> real \<Rightarrow> real \<Rightarrow> jsnum list" where
  "timeArrayR rd rnd numEntries hours variation =
     (let baseTime = fdiv rd (targetHoursR rd rnd hours variation) (Num (real numEntries))
      in map (\<lambda>i. fadd rd baseTime (fsub rd (fmul rd (Num (rnd (Suc i))) (Num 2)) (Num 0.5)))
           [0..<numEntries])"

definition adjustedTimesR ::
  "(real \<Rightarrow> real) \<Rightarrow> (nat \<Rightarrow> real) \<Rightarrow> nat \<Rightarrow> real \<Rightarrow> real \<Rightarrow> jsnum list" where
  "adjustedTimesR rd rnd numEntries hours variation =
     (let times = timeArrayR rd rnd numEntries hours variation;
          sum = foldl (fadd rd) (Num 0) times;
          adjustmentFactor = fdiv rd (targetHoursR rd rnd hours variation) sum
      in map (\<lambda>time. fmul rd time adjustmentFactor) times)"

definition distributeTimeEvenlyR ::
  "(real \<Rightarrow> real) \<Rightarrow> (real \<Rightarrow> string) \<Rightarrow> (nat \<Rightarrow> real) \<Rightarrow> nat \<Rightarrow> real \<Rightarrow> real \<Rightarrow> string list"
  where
  "distributeTimeEvenlyR rd numberToString rnd numEntries hours variation =
     map (toFixed2 numberToString) (adjustedTimesR rd rnd numEntries hours variation)"

section \<open>Entries, configuration and rows\<close>

text \<open>
  The entries that \<open>getCommits\<close> and \<open>getGithubReviews\<close> build. Both keep only entries
  that pass \<open>isCommitInMonth\<close>, which is false for an invalid date, so \<open>rawDate\<close> is a
  valid time value.
\<close>

record commit =
  commit_project :: string
  commit_rawDate :: int
  commit_date :: string
  commit_message :: string
  commit_author :: string

record review =
  review_repo :: string
  review_rawDate :: int
  review_date :: string
  review_pullRequest :: string
  review_reviewComment :: string

record config =
  author :: "string list"
  reviewComment :: string
  commitComment :: string
  totalHours :: real
  allowedVariation :: real

text \<open>\<open>Config.author\<close> comes from the environment; the other fields are constants.\<close>

definition Config :: "string list \<Rightarrow> config" where
  "Config authorNames =
     \<lparr> author = authorNames,
       reviewComment = ''Analyzed Pull Request and added comments'',
       commitComment = ''Worked on project and PBI associated'',
       totalHours = 160,
       allowedVariation = 5 \<rparr>"

record row =
  row_data :: string
  row_date :: int

section \<open>Array helpers\<close>

text \<open>
  \<open>Array.prototype.at\<close>: a negative index counts from the end. \<open>atIndex\<close> is the
  position that is read in an array of \<open>len\<close> elements, \<open>None\<close> when it is out of
  range and the result is \<open>undefined\<close>.
\<close>

definition atIndex :: "nat \<Rightarrow> int \<Rightarrow> nat option" where
  "atIndex len relativeIndex =
     (let k = (if relativeIndex \<ge> 0 then relativeIndex else int len + relativeIndex)
      in if k < 0 then None else if k \<ge> int len then None else Some (nat k))"

definition array_at :: "'a list \<Rightarrow> int \<Rightarrow> 'a option" where
  "array_at xs relativeIndex =
     (case atIndex (length xs) relativeIndex of None \<Rightarrow> None | Some k \<Rightarrow> Some (xs ! k))"

text \<open>A value inside a template literal: \<open>undefined\<close> prints as its name.\<close>

fun templ :: "string option \<Rightarrow> string" where
  "templ None = ''undefined''"
| "templ (Some s) = s"

text \<open>\<open>Array.prototype.join\<close>\<close>

fun join :: "string \<Rightarrow> string list \<Rightarrow> string" where
  "join sep [] = []"
| "join sep [x] = x"
| "join sep (x # y # ys) = x @ sep @ join sep (y # ys)"

text \<open>\<open>Array.prototype.includes\<close> on strings: equality of the two strings.\<close>

fun array_includes :: "string list \<Rightarrow> string \<Rightarrow> bool" where
  "array_includes [] s = False"
| "array_includes (x # xs) s = (if x = s then True else array_includes xs s)"

section \<open>Row assembly and serialisation\<close>

text \<open>
  The durations that the row templates read: \<open>durations.at(-i)\<close> for the commit of
  index \<open>i\<close> and \<open>durations.at(i)\<close> for the review of index \<open>i\<close>.
\<close>

definition commitDuration :: "string list \<Rightarrow> nat \<Rightarrow> string option" where
  "commitDuration durations i = array_at durations (- int i)"

definition reviewDuration :: "string list \<Rightarrow> nat \<Rightarrow> string option" where
  "reviewDuration durations i = array_at durations (int i)"

definition commitRows :: "config \<Rightarrow> string list \<Rightarrow> commit list \<Rightarrow> row list" where
  \<open>commitRows cfg durations commits =
     map (\<lambda>(i, commit).
           \<lparr> row_data = commit_project commit @ '',"'' @ commit_date commit @ ''","''
                 @ commit_message commit @ ''",'' @ commitComment cfg @ '',''
                 @ templ (commitDuration durations i),
             row_date = commit_rawDate commit \<rparr>)
         (enumerate 0 commits)\<close>

definition reviewRows :: "config \<Rightarrow> string list \<Rightarrow> review list \<Rightarrow> row list" where
  \<open>reviewRows cfg durations reviews =
     map (\<lambda>(i, review).
           \<lparr> row_data = review_repo review @ '',"'' @ review_date review @ ''","''
                 @ review_pullRequest review @ ''","'' @ reviewComment cfg @ ''",''
                 @ templ (reviewDuration durations i),
             row_date = review_rawDate review \<rparr>)
         (enumerate 0 reviews)\<close>

text \<open>
  \<open>Array.prototype.sort\<close> is stable, and \<open>a.date - b.date\<close> orders valid time values
  consistently, so the result is the one stable arrangement by ascending \<open>date\<close>, which
  \<open>sort_key\<close> computes.
\<close>

definition allRows :: "config \<Rightarrow> string list \<Rightarrow> commit list \<Rightarrow> review list \<Rightarrow> row list" where
  "allRows cfg durations commits reviews =
     sort_key row_date (reviewRows cfg durations reviews @ commitRows cfg durations commits)"

definition csvHeader :: string where
  "csvHeader = ''Project/Repo,Date,Commit/Review Message,Comments,Time used'' @ [CHR 0x0A]"

text \<open>\<open>writeToCSV\<close> returns the content it writes to the output file.\<close>

definition writeToCSV ::
  "(real \<Rightarrow> string) \<Rightarrow> (nat \<Rightarrow> real) \<Rightarrow> config \<Rightarrow> commit list \<Rightarrow> review list \<Rightarrow> string" where
  "writeToCSV numberToString rnd cfg commits reviews =
     (let totalEntries = length commits + length reviews;
          durations = distributeTimeEvenly numberToString rnd totalEntries
                        (totalHours cfg) (allowedVariation cfg);
          allRowsData = join [CHR 0x0A] (map row_data (allRows cfg durations commits reviews));
          csvContent = csvHeader @ allRowsData
      in csvContent)"

section \<open>Main function\<close>

text \<open>
  The loop of \<open>fillTimesheet\<close> over the git clients: \<open>fetched\<close> holds what \<open>getCommits\<close>
  returned for each project, in order.
\<close>

definition userCommits :: "config \<Rightarrow> commit list \<Rightarrow> commit list" where
  "userCommits cfg commits = filter (\<lambda>commit. array_includes (author cfg) (commit_author commit)) commits"

definition allCommits :: "config \<Rightarrow> commit list list \<Rightarrow> commit list" where
  "allCommits cfg fetched = foldl (\<lambda>acc commits. acc @ userCommits cfg commits) [] fetched"

definition fillTimesheet ::
  "(real \<Rightarrow> string) \<Rightarrow> (nat \<Rightarrow> real) \<Rightarrow> config \<Rightarrow> commit list list \<Rightarrow> review list \<Rightarrow> string" where
  "fillTimesheet numberToString rnd cfg fetched allReviews =
     writeToCSV numberToString rnd cfg (allCommits cfg fetched) allReviews"

section \<open>Notions used to state the properties\<close>

text \<open>A field wrapped in double quotes, and a line of comma-separated fields.\<close>

definition quoted :: "string \<Rightarrow> string" where
  "quoted s = [CHR 0x22] @ s @ [CHR 0x22]"

definition csvLine :: "string list \<Rightarrow> string" where
  "csvLine fs = join '','' fs"

text \<open>
  The durations of all rows, in the order in which \<open>writeToCSV\<close> concatenates them
  before sorting: those of \<open>r\<close> review rows, then those of \<open>c\<close> commit rows.
\<close>

definition rowDurations :: "string list \<Rightarrow> nat \<Rightarrow> nat \<Rightarrow> string option list" where
  "rowDurations durations r c =
     map (reviewDuration durations) [0..<r] @ map (commitDuration durations) [0..<c]"


text \<open>The sum of a list of numbers, accumulated from the left as \<open>reduce\<close> does.\<close>

definition jssum :: "jsnum list \<Rightarrow> jsnum" where
  "jssum xs = foldl jsadd (Num 0) xs"

text \<open>
  The rough time of entry \<open>i\<close> and the sum of the rough times, as real numbers, for a
  positive number of entries.
\<close>

definition roughTime :: "(nat \<Rightarrow> real) \<Rightarrow> nat \<Rightarrow> real \<Rightarrow> real \<Rightarrow> nat \<Rightarrow> real" where
  "roughTime rnd numEntries hours variation i =
     targetHours rnd hours variation / real numEntries + (rnd (Suc i) * 2 - 0.5)"

definition roughSum :: "(nat \<Rightarrow> real) \<Rightarrow> nat \<Rightarrow> real \<Rightarrow> real \<Rightarrow> real" where
  "roughSum rnd numEntries hours variation =
     sum_list (map (roughTime rnd numEntries hours variation) [0..<numEntries])"





subsection \<open>Concrete inputs\<close>

text \<open>A random source that returns the listed values in turn, and 0 afterwards.\<close>

definition drawsFrom :: "real list \<Rightarrow> nat \<Rightarrow> real" where
  "drawsFrom xs k = (if k < length xs then xs ! k else 0)"

text \<open>A stand-in for the exponent notation, which no example reaches.\<close>

definition noExponent :: "real \<Rightarrow> string" where
  "noExponent x = ''1e+21''"

definition commitOf :: "string \<Rightarrow> int \<Rightarrow> string \<Rightarrow> commit" where
  "commitOf who t day =
     \<lparr> commit_project = ''timesheet'', commit_rawDate = t, commit_date = day,
       commit_message = ''Fix parser'', commit_author = who \<rparr>"

definition reviewOf :: "int \<Rightarrow> string \<Rightarrow> review" where
  "reviewOf t day =
     \<lparr> review_repo = ''Gwitchr/fillTimesheet'', review_rawDate = t, review_date = day,
       review_pullRequest = ''Add tests'', review_reviewComment = ''No comment'' \<rparr>"

text \<open>
  Two commits of 5 and 20 March 2024 and one review of 10 March 2024 (midnight UTC),
  with draws that make \<open>targetHours\<close> 160 and the three durations differ.
\<close>

definition exampleCommits :: "commit list" where
  "exampleCommits =
     [commitOf ''Alice'' 1709596800000 ''March 5, 2024'',
      commitOf ''Alice'' 1710892800000 ''March 20, 2024'']"

definition exampleReviews :: "review list" where
  "exampleReviews = [reviewOf 1710028800000 ''March 10, 2024'']"

definition exampleDraws :: "nat \<Rightarrow> real" where
  "exampleDraws = drawsFrom [1 / 2, 0, 1 / 2, 1 / 4]"

section \<open>Properties of the month filter\<close>

lemma MakeDay_day: "MakeDay y m d = MakeDay y m 1 + d - 1"
  by (simp add: MakeDay_def Let_def)

lemma newDate_end_before_lastInstant:
  assumes "newDate tz y (m + 1) 0 = Some e" and "\<not> (0 \<le> y \<and> y \<le> 99)"
  shows "e < lastInstant tz y m"
proof -
  have "MakeDay y (m + 1) 0 = MakeDay y (m + 1) 1 - 1"
    using MakeDay_day [of y "m + 1" 0] by simp
  with assms show ?thesis
    by (simp add: newDate_def TimeClip_def lastInstant_def msPerDay_def Let_def
        split: if_splits)
qed

text \<open>
  For every target month (of a year outside 0 to 99, which the constructor reads as
  1900 to 1999), the last instant of the month does not pass the filter, and neither do
  the millisecond before the first instant and the millisecond after the last one.
\<close>

lemma isCommitInMonth_excludes_lastInstant:
  assumes "\<not> (0 \<le> y \<and> y \<le> 99)"
  shows "\<not> isCommitInMonth tz y m (Some (lastInstant tz y m))"
proof (cases "newDate tz y (m + 1) 0")
  case None
  then show ?thesis by (simp add: isCommitInMonth_def Let_def)
next
  case (Some e)
  then have "e < lastInstant tz y m"
    using assms by (rule newDate_end_before_lastInstant)
  with Some show ?thesis
    by (cases "newDate tz y m 1") (simp_all add: isCommitInMonth_def Let_def)
qed

lemma isCommitInMonth_excludes_before_first:
  assumes "\<not> (0 \<le> y \<and> y \<le> 99)"
  shows "\<not> isCommitInMonth tz y m (Some (firstInstant tz y m - 1))"
  using assms
  by (cases "newDate tz y m 1")
    (auto simp: isCommitInMonth_def Let_def newDate_def TimeClip_def firstInstant_def
      split: if_splits)

lemma isCommitInMonth_excludes_after_last:
  assumes "\<not> (0 \<le> y \<and> y \<le> 99)"
  shows "\<not> isCommitInMonth tz y m (Some (lastInstant tz y m + 1))"
proof (cases "newDate tz y (m + 1) 0")
  case None
  then show ?thesis by (simp add: isCommitInMonth_def Let_def)
next
  case (Some e)
  then have "e < lastInstant tz y m"
    using assms by (rule newDate_end_before_lastInstant)
  with Some show ?thesis
    by (cases "newDate tz y m 1") (simp_all add: isCommitInMonth_def Let_def)
qed

text \<open>
  C1. The month filter at the four boundary instants of March 2024 (UTC): the first
  instant is kept, the millisecond before it and the millisecond after the last instant
  are dropped. The last instant of the month (31 March, 23:59:59.999) is dropped as
  well, and so is noon of 31 March: \<open>endOfMonth\<close> is midnight at the start of the last
  day, so the filter ends one day short of the month.
\<close>

theorem isCommitInMonth_march_2024:
  "firstInstant 0 2024 2 = 1709251200000
   \<and> lastInstant 0 2024 2 = 1711929599999
   \<and> isCommitInMonth 0 2024 2 (Some (firstInstant 0 2024 2))
   \<and> \<not> isCommitInMonth 0 2024 2 (Some (firstInstant 0 2024 2 - 1))
   \<and> \<not> isCommitInMonth 0 2024 2 (Some (lastInstant 0 2024 2 + 1))
   \<and> \<not> isCommitInMonth 0 2024 2 (Some (lastInstant 0 2024 2))
   \<and> \<not> isCommitInMonth 0 2024 2 (Some 1711886400000)
   \<and> newDate 0 2024 3 0 = Some 1711843200000"
  by (simp add: isCommitInMonth_def firstInstant_def lastInstant_def newDate_def
      TimeClip_def MakeDay_def DayFromYear_def InLeapYear_def monthStart_def
      msPerDay_def Let_def)

section \<open>Properties of the duration allocator\<close>

text \<open>The equations that evaluate the model on concrete inputs.\<close>

lemmas alloc_eval = distributeTimeEvenly_def adjustedTimes_def timeArray_def targetHours_def
  drawsFrom_def toFixed2_def fixedDigits_def digits.simps Let_def upt_rec

lemmas at_eval = reviewDuration_def commitDuration_def array_at_def atIndex_def

lemmas example_eval = exampleCommits_def exampleReviews_def exampleDraws_def commitOf_def
  reviewOf_def Config_def

lemma length_timeArray: "length (timeArray rnd n T v) = n"
  by (simp add: timeArray_def Let_def)

lemma length_adjustedTimes: "length (adjustedTimes rnd n T v) = n"
  by (simp add: adjustedTimes_def Let_def length_timeArray)

lemma timeArray_Num:
  "0 < n \<Longrightarrow> timeArray rnd n T v = map (\<lambda>i. Num (roughTime rnd n T v i)) [0..<n]"
  by (simp add: timeArray_def roughTime_def Let_def)

lemma foldl_jsadd_Num:
  "foldl jsadd (Num a) (map (\<lambda>i. Num (f i)) xs) = Num (a + sum_list (map f xs))"
  by (induction xs arbitrary: a) (simp_all add: add.assoc)

lemma jssum_timeArray:
  "0 < n \<Longrightarrow> jssum (timeArray rnd n T v) = Num (roughSum rnd n T v)"
  by (simp add: jssum_def timeArray_Num foldl_jsadd_Num roughSum_def)

lemma adjustedTimes_Num:
  assumes "0 < n" and "roughSum rnd n T v \<noteq> 0"
  shows "adjustedTimes rnd n T v =
         map (\<lambda>i. Num (roughTime rnd n T v i * (targetHours rnd T v / roughSum rnd n T v))) [0..<n]"
proof -
  have "foldl jsadd (Num 0) (timeArray rnd n T v) = Num (roughSum rnd n T v)"
    using jssum_timeArray [OF assms(1)] by (simp add: jssum_def)
  then show ?thesis
    using assms by (simp add: adjustedTimes_def Let_def timeArray_Num)
qed

text \<open>
  Whenever the rough times do not sum to zero, the adjusted times sum to \<open>targetHours\<close>,
  in exact arithmetic.
\<close>

lemma adjustedTimes_sum:
  assumes "0 < n" and "roughSum rnd n T v \<noteq> 0"
  shows "jssum (adjustedTimes rnd n T v) = Num (targetHours rnd T v)"
proof -
  let ?c = "targetHours rnd T v / roughSum rnd n T v"
  have "sum_list (map (\<lambda>i. roughTime rnd n T v i * ?c) [0..<n]) = roughSum rnd n T v * ?c"
    unfolding roughSum_def by (rule sum_list_mult_const)
  also have "\<dots> = targetHours rnd T v"
    using assms(2) by simp
  finally have "sum_list (map (\<lambda>i. roughTime rnd n T v i * ?c) [0..<n]) = targetHours rnd T v" .
  then show ?thesis
    unfolding jssum_def adjustedTimes_Num [OF assms] foldl_jsadd_Num by simp
qed


text \<open>
  C3. The sum invariant fails when the rough times sum to zero. With the configured
  160 hours and variation 5, 310 entries and every random draw equal to 0,
  \<open>targetHours\<close> is 155, every rough time is \<open>0.5 + (0 - 0.5) = 0\<close>, the adjustment
  factor is \<open>155 / 0\<close>, and every adjusted time is \<open>0 * Infinity\<close>, that is NaN: the
  adjusted times do not sum to \<open>targetHours\<close>, and the function returns 310 times the
  string NaN. Every operation of this run is exact in double precision.
\<close>

theorem adjustedTimes_zero_sum:
  "validDraws (drawsFrom []) 310
   \<and> targetHours (drawsFrom []) 160 5 = 155
   \<and> roughSum (drawsFrom []) 310 160 5 = 0
   \<and> adjustedTimes (drawsFrom []) 310 160 5 = replicate 310 NaN
   \<and> jssum (adjustedTimes (drawsFrom []) 310 160 5) = NaN
   \<and> distributeTimeEvenly noExponent (drawsFrom []) 310 160 5 = replicate 310 ''NaN''"
proof -
  have t: "targetHours (drawsFrom []) 160 5 = 155"
    by (simp add: targetHours_def drawsFrom_def)
  have r: "roughTime (drawsFrom []) 310 160 5 = (\<lambda>i. 0)"
    by (simp add: roughTime_def t drawsFrom_def fun_eq_iff)
  have ta: "timeArray (drawsFrom []) 310 160 5 = map (\<lambda>i. Num 0) [0..<310]"
    by (simp add: timeArray_Num r)
  have s: "foldl jsadd (Num 0) (replicate n (Num 0)) = Num 0" for n
    by (induction n) simp_all
  have a: "adjustedTimes (drawsFrom []) 310 160 5 = replicate 310 NaN"
    by (simp add: adjustedTimes_def ta s t Let_def infOfSign_def map_replicate_const)
  have j: "jssum (replicate (Suc n) NaN) = NaN" for n
    unfolding jssum_def by (induction n) simp_all
  have "jssum (replicate 310 NaN) = NaN"
    using j [of 309] by simp
  moreover have "validDraws (drawsFrom []) 310"
    by (simp add: validDraws_def drawsFrom_def list_all_iff)
  ultimately show ?thesis
    by (simp add: a t distributeTimeEvenly_def toFixed2_def roughSum_def r)
qed

subsection \<open>The allocator in double precision\<close>


lemma double_int_div: "\<bar>m\<bar> < 2 ^ 53 \<Longrightarrow> e \<le> 1074 \<Longrightarrow> double (of_int m / 2 ^ e)"
  unfolding double_def by blast







lemma rd_fix: "rounding rd \<Longrightarrow> double x \<Longrightarrow> rd x = x"
  by (simp add: rounding_def)




lemma pow66_le_maxDouble: "(2::real) ^ 66 \<le> maxDouble"
  by (simp add: maxDouble_def)


lemma fl_double:
  assumes "rounding rd" and "double x" and "\<bar>x\<bar> \<le> 2 ^ 66"
  shows "fl rd x = Num x"
proof -
  have "rd x = x" using assms(1,2) by (rule rd_fix)
  moreover have "x \<le> maxDouble" "- maxDouble \<le> x"
    using assms(3) pow66_le_maxDouble by linarith+
  ultimately show ?thesis by (simp add: fl_def)
qed

lemma fl_small:
  assumes "rounding rd"
  shows "fl rd 0 = Num 0" "fl rd 1 = Num 1" "fl rd 2 = Num 2"
    "fl rd (1 / 2) = Num (1 / 2)" "fl rd (- (1 / 2)) = Num (- (1 / 2))"
    "fl rd (1 / 4) = Num (1 / 4)" "fl rd (- (1 / 4)) = Num (- (1 / 4))"
    "fl rd (3 / 4) = Num (3 / 4)" "fl rd (5 / 4) = Num (5 / 4)"
    "fl rd (- (1 / 8)) = Num (- (1 / 8))" "fl rd (3 / 8) = Num (3 / 8)"
    "fl rd (- 5) = Num (- 5)" "fl rd 155 = Num 155"
  using fl_double [OF assms double_int_div [of 0 0]] fl_double [OF assms double_int_div [of 1 0]]
    fl_double [OF assms double_int_div [of 2 0]] fl_double [OF assms double_int_div [of 1 1]]
    fl_double [OF assms double_int_div [of "-1" 1]] fl_double [OF assms double_int_div [of 1 2]]
    fl_double [OF assms double_int_div [of "-1" 2]] fl_double [OF assms double_int_div [of 3 2]]
    fl_double [OF assms double_int_div [of 5 2]] fl_double [OF assms double_int_div [of "-1" 3]]
    fl_double [OF assms double_int_div [of 3 3]] fl_double [OF assms double_int_div [of "-5" 0]]
    fl_double [OF assms double_int_div [of 155 0]]
  by simp_all

text \<open>\<open>roundNearest\<close> has the three properties of a rounding.\<close>

lemma ulp_pos: "0 < ulp x"
  by (simp add: ulp_def)

lemma roundEven_int: "roundEven (of_int z) = z"
  by (simp add: roundEven_def)

lemma roundEven_cases: "roundEven y = \<lfloor>y\<rfloor> \<or> roundEven y = \<lfloor>y\<rfloor> + 1"
  by (simp add: roundEven_def Let_def)

lemma roundEven_near: "\<bar>of_int (roundEven y) - y\<bar> \<le> 1 / 2"
proof -
  have "of_int \<lfloor>y\<rfloor> \<le> y" "y < of_int \<lfloor>y\<rfloor> + 1" by linarith+
  then show ?thesis
    by (auto simp: roundEven_def Let_def abs_le_iff)
qed

lemma roundEven_mono:
  assumes "y \<le> z"
  shows "roundEven y \<le> roundEven z"
proof (cases "\<lfloor>y\<rfloor> = \<lfloor>z\<rfloor>")
  case True
  then show ?thesis
    using assms by (auto simp: roundEven_def Let_def)
next
  case False
  then have "\<lfloor>y\<rfloor> + 1 \<le> \<lfloor>z\<rfloor>"
    using assms floor_mono [of y z] by linarith
  moreover have "roundEven y \<le> \<lfloor>y\<rfloor> + 1" "\<lfloor>z\<rfloor> \<le> roundEven z"
    using roundEven_cases [of y] roundEven_cases [of z] by linarith+
  ultimately show ?thesis by linarith
qed

lemma roundEven_minus: "roundEven (- y) = - roundEven y"
proof (cases "y = of_int \<lfloor>y\<rfloor>")
  case True
  then obtain z :: int where "y = of_int z" by blast
  then have "- y = of_int (- z)" by simp
  then show ?thesis
    using roundEven_int [of "- z"] roundEven_int [of z] \<open>y = of_int z\<close> by simp
next
  case False
  then have f: "\<lfloor>- y\<rfloor> = - \<lfloor>y\<rfloor> - 1"
    by (metis ceiling_def ceiling_altdef diff_minus_eq_add minus_diff_eq add.commute
        minus_add_cancel uminus_add_conv_diff)
  have "of_int \<lfloor>y\<rfloor> \<le> y" "y < of_int \<lfloor>y\<rfloor> + 1" by linarith+
  then show ?thesis
    using False f by (auto simp: roundEven_def Let_def)
qed

lemma floor_log_bounds:
  assumes "0 < x"
  shows "(2::real) powr of_int \<lfloor>log 2 x\<rfloor> \<le> x"
    and "x < (2::real) powr of_int (\<lfloor>log 2 x\<rfloor> + 1)"
proof -
  have x: "2 powr log 2 x = x" using assms by simp
  have "of_int \<lfloor>log 2 x\<rfloor> \<le> log 2 x" by simp
  then have "(2::real) powr of_int \<lfloor>log 2 x\<rfloor> \<le> 2 powr log 2 x" by simp
  then show "2 powr of_int \<lfloor>log 2 x\<rfloor> \<le> x" using x by simp
  have "log 2 x < of_int (\<lfloor>log 2 x\<rfloor> + 1)" by linarith
  then have "(2::real) powr log 2 x < 2 powr of_int (\<lfloor>log 2 x\<rfloor> + 1)" by simp
  then show "x < 2 powr of_int (\<lfloor>log 2 x\<rfloor> + 1)" using x by simp
qed

lemma ulp_minus: "ulp (- x) = ulp x"
  by (simp add: ulp_def ulpExp_def)

lemma roundNearest_minus: "roundNearest (- x) = - roundNearest x"
  by (simp add: roundNearest_def ulp_minus roundEven_minus)

lemma ulpExp_mono:
  assumes "0 < x" and "x \<le> y"
  shows "ulpExp x \<le> ulpExp y"
proof -
  have "log 2 x \<le> log 2 y" using assms by simp
  then have "\<lfloor>log 2 x\<rfloor> \<le> \<lfloor>log 2 y\<rfloor>" by (rule floor_mono)
  then show ?thesis using assms by (simp add: ulpExp_def)
qed

lemma grid_le:
  assumes "x \<le> of_int z * ulp x"
  shows "roundNearest x \<le> of_int z * ulp x"
proof -
  have "x / ulp x \<le> of_int z" using assms ulp_pos [of x] by (simp add: field_simps)
  then have "roundEven (x / ulp x) \<le> z"
    using roundEven_mono [of "x / ulp x" "of_int z"] by (simp add: roundEven_int)
  then have "real_of_int (roundEven (x / ulp x)) \<le> of_int z" by simp
  then show ?thesis
    unfolding roundNearest_def using ulp_pos [of x] by (simp add: mult_right_mono)
qed

lemma grid_ge:
  assumes "of_int z * ulp x \<le> x"
  shows "of_int z * ulp x \<le> roundNearest x"
proof -
  have "of_int z \<le> x / ulp x" using assms ulp_pos [of x] by (simp add: field_simps)
  then have "z \<le> roundEven (x / ulp x)"
    using roundEven_mono [of "of_int z" "x / ulp x"] by (simp add: roundEven_int)
  then have "real_of_int z \<le> of_int (roundEven (x / ulp x))" by simp
  then show ?thesis
    unfolding roundNearest_def using ulp_pos [of x] by (simp add: mult_right_mono)
qed

lemma roundNearest_nonneg: "0 \<le> x \<Longrightarrow> 0 \<le> roundNearest x"
  using grid_ge [of 0 x] by simp

lemma powr_int_nonneg: "0 \<le> d \<Longrightarrow> (2::real) powr of_int d = of_int (2 ^ nat d)"
proof -
  assume "0 \<le> d"
  then have e: "real_of_int d = real (nat d)" by simp
  have "(2::real) powr real (nat d) = 2 ^ nat d"
    by (rule powr_realpow) simp
  then have "(2::real) powr of_int d = 2 ^ nat d"
    by (simp only: e)
  then show ?thesis by simp
qed

lemma powr_nat: "(2::real) powr real n = 2 ^ n"
  by (rule powr_realpow) simp

lemma powr_neg_nat: "(2::real) powr (- real n) = 1 / 2 ^ n"
proof -
  have "(2::real) powr real n = 2 ^ n" by (rule powr_realpow) simp
  moreover have "(2::real) powr (- real n) = inverse (2 powr real n)" by (rule powr_minus)
  ultimately show ?thesis by (simp only: inverse_eq_divide)
qed

lemma roundNearest_mono_pos:
  assumes "0 < x" and "x \<le> y"
  shows "roundNearest x \<le> roundNearest y"
proof (cases "ulpExp x = ulpExp y")
  case True
  then have u: "ulp x = ulp y" by (simp add: ulp_def)
  have "x / ulp y \<le> y / ulp y" using assms(2) ulp_pos [of y] by (simp add: divide_right_mono)
  then have "roundEven (x / ulp y) \<le> roundEven (y / ulp y)" by (rule roundEven_mono)
  then have "real_of_int (roundEven (x / ulp y)) \<le> of_int (roundEven (y / ulp y))" by simp
  then show ?thesis
    unfolding roundNearest_def u using ulp_pos [of y] by (simp add: mult_right_mono)
next
  case False
  define L where "L = \<lfloor>log 2 y\<rfloor>"
  have y: "0 < y" using assms by linarith
  have lt: "ulpExp x < ulpExp y" using False ulpExp_mono [OF assms] by linarith
  have a: "- 1074 \<le> ulpExp x" "\<lfloor>log 2 x\<rfloor> - 52 \<le> ulpExp x"
    using assms(1) by (simp_all add: ulpExp_def)
  have b: "ulpExp y = L - 52" using lt a(1) y by (simp add: ulpExp_def L_def max_def split: if_splits)
  have p_le: "2 powr of_int L \<le> y" using floor_log_bounds(1) [OF y] by (simp add: L_def)
  have "\<lfloor>log 2 x\<rfloor> + 1 \<le> L" using a(2) lt b by linarith
  then have "real_of_int (\<lfloor>log 2 x\<rfloor> + 1) \<le> real_of_int L" by linarith
  then have "(2::real) powr of_int (\<lfloor>log 2 x\<rfloor> + 1) \<le> 2 powr of_int L"
    by (simp only: powr_le_cancel_iff) 
  then have x_le: "x \<le> 2 powr of_int L" using floor_log_bounds(2) [OF assms(1)] by linarith
  have d: "0 \<le> L - ulpExp x" using lt b by linarith
  have "real_of_int L = real_of_int (L - ulpExp x) + real_of_int (ulpExp x)" by simp
  then have "(2::real) powr of_int L
      = 2 powr (real_of_int (L - ulpExp x) + real_of_int (ulpExp x))"
    by (rule arg_cong)
  also have "\<dots> = 2 powr real_of_int (L - ulpExp x) * 2 powr real_of_int (ulpExp x)"
    by (rule powr_add)
  also have "\<dots> = of_int (2 ^ nat (L - ulpExp x)) * ulp x"
    by (simp only: powr_int_nonneg [OF d] ulp_def)
  finally have px: "2 powr of_int L = of_int (2 ^ nat (L - ulpExp x)) * ulp x" .
  have "real_of_int L = real_of_int 52 + real_of_int (ulpExp y)" by (simp add: b)
  then have "(2::real) powr of_int L = 2 powr (real_of_int 52 + real_of_int (ulpExp y))"
    by (rule arg_cong)
  also have "\<dots> = 2 powr real_of_int 52 * 2 powr real_of_int (ulpExp y)"
    by (rule powr_add)
  also have "\<dots> = of_int (2 ^ nat 52) * ulp y"
  proof -
    have "(2::real) powr real_of_int 52 = of_int (2 ^ nat 52)"
      by (rule powr_int_nonneg) simp
    then show ?thesis by (simp only: ulp_def)
  qed
  finally have py: "2 powr of_int L = of_int (2 ^ nat 52) * ulp y" .
  have "x \<le> of_int (2 ^ nat (L - ulpExp x)) * ulp x"
    using x_le by (simp only: px)
  then have "roundNearest x \<le> of_int (2 ^ nat (L - ulpExp x)) * ulp x"
    by (rule grid_le)
  then have "roundNearest x \<le> 2 powr of_int L" by (simp only: px)
  moreover have "of_int (2 ^ nat 52) * ulp y \<le> y"
    using p_le by (simp only: py)
  then have "of_int (2 ^ nat 52) * ulp y \<le> roundNearest y"
    by (rule grid_ge)
  then have "2 powr of_int L \<le> roundNearest y" by (simp only: py)
  ultimately show ?thesis by linarith
qed

lemma roundNearest_mono:
  assumes "x \<le> y"
  shows "roundNearest x \<le> roundNearest y"
proof -
  consider "0 < x" | "x \<le> 0" "0 \<le> y" | "y < 0" by linarith
  then show ?thesis
  proof cases
    case 1
    then show ?thesis using assms by (rule roundNearest_mono_pos)
  next
    case 2
    have "0 \<le> roundNearest (- x)" using 2(1) by (simp add: roundNearest_nonneg)
    then have "roundNearest x \<le> 0" by (simp add: roundNearest_minus)
    moreover have "0 \<le> roundNearest y" using 2(2) by (rule roundNearest_nonneg)
    ultimately show ?thesis by linarith
  next
    case 3
    then have "0 < - y" "- y \<le> - x" using assms by linarith+
    then have "roundNearest (- y) \<le> roundNearest (- x)" by (rule roundNearest_mono_pos)
    then show ?thesis by (simp add: roundNearest_minus)
  qed
qed

lemma ulpExp_normal:
  assumes "1 / 2 ^ 1022 \<le> \<bar>x\<bar>"
  shows "ulpExp x = \<lfloor>log 2 \<bar>x\<bar>\<rfloor> - 52"
proof -
  have pos: "0 < \<bar>x\<bar>"
  proof -
    have "(0::real) < 1 / 2 ^ 1022" by (simp only: zero_less_divide_1_iff zero_less_power zero_less_numeral)
    then show ?thesis using assms by linarith
  qed
  have "\<not> \<lfloor>log 2 \<bar>x\<bar>\<rfloor> + 1 \<le> - 1022"
  proof
    assume "\<lfloor>log 2 \<bar>x\<bar>\<rfloor> + 1 \<le> - 1022"
    then have "real_of_int (\<lfloor>log 2 \<bar>x\<bar>\<rfloor> + 1) \<le> - real 1022" by simp
    then have "(2::real) powr of_int (\<lfloor>log 2 \<bar>x\<bar>\<rfloor> + 1) \<le> 2 powr (- real 1022)"
      by (simp only: powr_le_cancel_iff) 
    then have "\<bar>x\<bar> < 2 powr (- real 1022)"
      using floor_log_bounds(2) [OF pos] by linarith
    then have "\<bar>x\<bar> < 1 / 2 ^ 1022" by (simp only: powr_neg_nat)
    then show False using assms by linarith
  qed
  then show ?thesis by (simp add: ulpExp_def)
qed

lemma roundNearest_error:
  assumes "1 / 2 ^ 1022 \<le> \<bar>x\<bar>"
  shows "\<bar>roundNearest x - x\<bar> \<le> \<bar>x\<bar> / 2 ^ 53"
proof -
  define L where "L = \<lfloor>log 2 \<bar>x\<bar>\<rfloor>"
  have pos: "0 < \<bar>x\<bar>"
  proof -
    have "(0::real) < 1 / 2 ^ 1022" by (simp only: zero_less_divide_1_iff zero_less_power zero_less_numeral)
    then show ?thesis using assms by linarith
  qed
  have ue: "ulpExp x = L - 52" using ulpExp_normal [OF assms] by (simp add: L_def)
  have "real_of_int L = real_of_int (L - 52) + real 52" by simp
  then have "(2::real) powr of_int L = 2 powr (real_of_int (L - 52) + real 52)"
    by (rule arg_cong)
  also have "\<dots> = 2 powr real_of_int (L - 52) * 2 powr real 52" by (rule powr_add)
  also have "\<dots> = ulp x * 2 ^ 52" by (simp only: ulp_def ue powr_nat)
  finally have "ulp x * 2 ^ 52 \<le> \<bar>x\<bar>"
    using floor_log_bounds(1) [OF pos] by (simp only: L_def)
  then have u: "ulp x / 2 \<le> \<bar>x\<bar> / 2 ^ 53" by simp
  have "roundNearest x - x = (of_int (roundEven (x / ulp x)) - x / ulp x) * ulp x"
    using ulp_pos [of x] by (simp add: roundNearest_def algebra_simps)
  then have "\<bar>roundNearest x - x\<bar> = \<bar>of_int (roundEven (x / ulp x)) - x / ulp x\<bar> * ulp x"
    using ulp_pos [of x] by (simp add: abs_mult)
  also have "\<dots> \<le> 1 / 2 * ulp x"
    using roundEven_near [of "x / ulp x"] ulp_pos [of x] by (intro mult_right_mono) simp_all
  finally show ?thesis using u by linarith
qed

lemma double_powr:
  assumes "double x"
  obtains m k :: int where "\<bar>m\<bar> < 2 ^ 53" and "- 1074 \<le> k" and "x = of_int m * 2 powr of_int k"
proof -
  from assms obtain m :: int and e :: nat where m: "\<bar>m\<bar> < 2 ^ 53"
    and c: "(e \<le> 971 \<and> x = of_int m * 2 ^ e) \<or> (e \<le> 1074 \<and> x = of_int m / 2 ^ e)"
    unfolding double_def by blast
  from c show ?thesis
  proof
    assume a: "e \<le> 971 \<and> x = of_int m * 2 ^ e"
    have "(2::real) powr of_int (int e) = 2 ^ e" using powr_nat [of e] by simp
    then have "x = of_int m * 2 powr of_int (int e)" using a by simp
    moreover have "- 1074 \<le> int e" by simp
    ultimately show ?thesis using m that by blast
  next
    assume a: "e \<le> 1074 \<and> x = of_int m / 2 ^ e"
    have "(2::real) powr of_int (- int e) = 1 / 2 ^ e" using powr_neg_nat [of e] by simp
    then have "x = of_int m * 2 powr of_int (- int e)" using a by simp
    moreover have "- 1074 \<le> - int e" using a by simp
    ultimately show ?thesis using m that by blast
  qed
qed

lemma roundNearest_zero: "roundNearest 0 = 0"
  using roundEven_int [of 0] by (simp add: roundNearest_def)

lemma roundNearest_on_grid:
  assumes x: "x = of_int m * 2 powr of_int k" and le: "ulpExp x \<le> k"
  shows "roundNearest x = x"
proof -
  have d: "0 \<le> k - ulpExp x" using le by simp
  have "real_of_int k = real_of_int (k - ulpExp x) + real_of_int (ulpExp x)" by simp
  then have "(2::real) powr of_int k = 2 powr (real_of_int (k - ulpExp x) + real_of_int (ulpExp x))"
    by (rule arg_cong)
  also have "\<dots> = 2 powr real_of_int (k - ulpExp x) * 2 powr real_of_int (ulpExp x)"
    by (rule powr_add)
  also have "\<dots> = of_int (2 ^ nat (k - ulpExp x)) * ulp x"
    by (simp only: powr_int_nonneg [OF d] ulp_def)
  finally have "x = of_int m * (of_int (2 ^ nat (k - ulpExp x)) * ulp x)"
    using x by simp
  then have g: "x = of_int (m * 2 ^ nat (k - ulpExp x)) * ulp x" by simp
  then have "x / ulp x = of_int (m * 2 ^ nat (k - ulpExp x))"
    using ulp_pos [of x] by (simp add: field_simps)
  then have "roundEven (x / ulp x) = m * 2 ^ nat (k - ulpExp x)"
    by (simp only: roundEven_int)
  then have "roundNearest x = of_int (m * 2 ^ nat (k - ulpExp x)) * ulp x"
    by (simp only: roundNearest_def)
  then show ?thesis using g by simp
qed

lemma ulpExp_le_exponent:
  assumes x: "x = of_int m * 2 powr of_int k" and m: "\<bar>m\<bar> < 2 ^ 53" and k: "- 1074 \<le> k"
    and nz: "x \<noteq> 0"
  shows "ulpExp x \<le> k"
proof -
  have pos: "0 < \<bar>x\<bar>" using nz by simp
  have "\<bar>x\<bar> = \<bar>real_of_int m\<bar> * 2 powr of_int k" using x by (simp add: abs_mult)
  moreover have "\<bar>real_of_int m\<bar> < 2 ^ 53"
  proof -
    have "real_of_int \<bar>m\<bar> < real_of_int (2 ^ 53)" using m by (simp only: of_int_less_iff)
    then show ?thesis by simp
  qed
  ultimately have lt: "\<bar>x\<bar> < 2 ^ 53 * 2 powr of_int k"
    by (simp add: mult_strict_right_mono)
  have "\<not> 53 + k \<le> \<lfloor>log 2 \<bar>x\<bar>\<rfloor>"
  proof
    assume "53 + k \<le> \<lfloor>log 2 \<bar>x\<bar>\<rfloor>"
    then have "real 53 + real_of_int k \<le> real_of_int \<lfloor>log 2 \<bar>x\<bar>\<rfloor>" by linarith
    then have "(2::real) powr (real 53 + real_of_int k) \<le> 2 powr of_int \<lfloor>log 2 \<bar>x\<bar>\<rfloor>"
      by (simp only: powr_le_cancel_iff)
    then have "(2::real) powr (real 53 + real_of_int k) \<le> \<bar>x\<bar>"
      using floor_log_bounds(1) [OF pos] by linarith
    moreover have "(2::real) powr (real 53 + real_of_int k) = 2 powr real 53 * 2 powr of_int k"
      by (rule powr_add)
    ultimately have "2 ^ 53 * 2 powr of_int k \<le> \<bar>x\<bar>"
      by (simp only: powr_nat)
    then show False using lt by linarith
  qed
  then show ?thesis using k by (simp add: ulpExp_def)
qed

lemma roundNearest_double:
  assumes "double x"
  shows "roundNearest x = x"
proof (cases "x = 0")
  case True
  then show ?thesis by (simp add: roundNearest_zero)
next
  case False
  from assms obtain m k :: int where m: "\<bar>m\<bar> < 2 ^ 53" and k: "- 1074 \<le> k"
    and x: "x = of_int m * 2 powr of_int k"
    by (rule double_powr)
  have "ulpExp x \<le> k" using x m k False by (rule ulpExp_le_exponent)
  with x show ?thesis by (rule roundNearest_on_grid)
qed

lemma rounding_roundNearest: "rounding roundNearest"
  unfolding rounding_def
  using roundNearest_mono roundNearest_double roundNearest_error by blast

text \<open>
  The run of C3 in double precision: every operation is exact, whatever the rounding,
  and the result is the same.
\<close>

lemma adjustedTimesR_zero_sum:
  assumes "rounding rd"
  shows "adjustedTimesR rd (drawsFrom []) 310 160 5 = replicate 310 NaN"
proof -
  have t: "targetHoursR rd (drawsFrom []) 160 5 = Num 155"
    by (simp add: targetHoursR_def drawsFrom_def fl_small [OF assms])
  have ta: "timeArrayR rd (drawsFrom []) 310 160 5 = replicate 310 (Num 0)"
    by (simp add: timeArrayR_def t Let_def drawsFrom_def fl_small [OF assms] map_replicate_const)
  have s: "foldl (fadd rd) (Num 0) (replicate n (Num 0)) = Num 0" for n
    by (induction n) (simp_all add: fl_small [OF assms])
  show ?thesis
    by (simp add: adjustedTimesR_def ta s t Let_def infOfSign_def)
qed

lemma distributeTimeEvenlyR_count:
  "length (distributeTimeEvenlyR rd nts rnd n T v) = n"
  by (simp add: distributeTimeEvenlyR_def adjustedTimesR_def timeArrayR_def Let_def)

lemma distributeTimeEvenly_double_zero_sum:
  "distributeTimeEvenlyR roundNearest noExponent (drawsFrom []) 310 160 5 = replicate 310 ''NaN''"
  by (simp add: distributeTimeEvenlyR_def adjustedTimesR_zero_sum [OF rounding_roundNearest]
      toFixed2_def)

text \<open>
  A run with equal draws in double precision: every operation is exact, and the two
  durations are the same string.
\<close>

lemma fl_quarters:
  assumes "rounding rd"
  shows "fl rd (5 / 4) = Num (5 / 4)" "fl rd (5 / 2) = Num (5 / 2)"
    "fl rd (- (5 / 2)) = Num (- (5 / 2))" "fl rd (315 / 2) = Num (315 / 2)"
    "fl rd (315 / 4) = Num (315 / 4)"
  using fl_double [OF assms double_int_div [of 5 2]] fl_double [OF assms double_int_div [of 5 1]]
    fl_double [OF assms double_int_div [of "-5" 1]] fl_double [OF assms double_int_div [of 315 1]]
    fl_double [OF assms double_int_div [of 315 2]]
  by simp_all

lemma adjustedTimesR_equal_durations:
  assumes "rounding rd"
  shows "adjustedTimesR rd (drawsFrom [1 / 4, 1 / 4, 1 / 4]) 2 160 5 = [Num (315 / 4), Num (315 / 4)]"
  by (simp add: adjustedTimesR_def timeArrayR_def targetHoursR_def drawsFrom_def Let_def upt_rec
      fl_small [OF assms] fl_quarters [OF assms])

lemma distributeTimeEvenly_double_equal_durations:
  "distributeTimeEvenlyR roundNearest noExponent (drawsFrom [1 / 4, 1 / 4, 1 / 4]) 2 160 5
   = [''78.75'', ''78.75'']"
  by (simp add: distributeTimeEvenlyR_def adjustedTimesR_equal_durations [OF rounding_roundNearest]
      toFixed2_def fixedDigits_def digits.simps)

















text \<open>The same run in double precision: every operation is exact.\<close>

lemma adjustedTimesR_negative_duration:
  assumes "rounding rd"
  shows "adjustedTimesR rd (drawsFrom [0, 0, 1 / 2, 1 / 2, 1 / 2]) 4 1 0
         = [Num (- 1 / 8), Num (3 / 8), Num (3 / 8), Num (3 / 8)]"
  by (simp add: adjustedTimesR_def timeArrayR_def targetHoursR_def drawsFrom_def Let_def upt_rec
      fl_small [OF assms])

lemma distributeTimeEvenly_double_negative_duration:
  "distributeTimeEvenlyR roundNearest noExponent (drawsFrom [0, 0, 1 / 2, 1 / 2, 1 / 2]) 4 1 0
   = [''-0.13'', ''0.38'', ''0.38'', ''0.38'']"
  by (simp add: distributeTimeEvenlyR_def adjustedTimesR_negative_duration [OF rounding_roundNearest]
      toFixed2_def fixedDigits_def digits.simps)




text \<open>
  A share just above the largest downward jitter is not enough for the returned string:
  a positive time below 0.005 is rendered as 0.00. In exact arithmetic, two entries, a
  total of 1.002 hours and the draws 0 and 0.5 give the times 0.001 and 1.001.
\<close>

lemma distributeTimeEvenly_rounds_to_zero:
  "real (2::nat) / 2 < 1002 / 1000 - 0
   \<and> validDraws (drawsFrom [0, 0, 1 / 2]) 2
   \<and> adjustedTimes (drawsFrom [0, 0, 1 / 2]) 2 (1002 / 1000) 0
       = [Num (1 / 1000), Num (1001 / 1000)]
   \<and> distributeTimeEvenly noExponent (drawsFrom [0, 0, 1 / 2]) 2 (1002 / 1000) 0
       = [''0.00'', ''1.00'']"
  by (simp add: alloc_eval validDraws_def)

text \<open>
  C5. \<open>distributeTimeEvenly\<close> returns as many durations as there are entries, whatever
  the draws, and the empty list for no entry: the two divisions by zero of that run
  yield special values and raise nothing.
\<close>

theorem distributeTimeEvenly_count:
  "length (distributeTimeEvenly nts rnd n T v) = n
   \<and> distributeTimeEvenly nts rnd 0 T v = []"
  by (simp add: distributeTimeEvenly_def length_adjustedTimes adjustedTimes_def timeArray_def)

section \<open>Properties of the pairing of rows and durations\<close>

lemma atIndex_nonneg: "i < len \<Longrightarrow> atIndex len (int i) = Some i"
  by (simp add: atIndex_def)

lemma atIndex_zero: "0 < len \<Longrightarrow> atIndex len (- int 0) = Some 0"
  by (simp add: atIndex_def)

lemma atIndex_neg: "0 < i \<Longrightarrow> i \<le> len \<Longrightarrow> atIndex len (- int i) = Some (len - i)"
  by (simp add: atIndex_def Let_def nat_diff_distrib' of_nat_diff)

text \<open>
  What holds of the pairing: the review of index \<open>i\<close> reads the duration of index \<open>i\<close>,
  and the commit of index \<open>i\<close>, from the second commit on, reads the duration \<open>i\<close>
  places before the end. The first commit reads index 0.
\<close>

lemma reviewDuration_nth: "i < length ds \<Longrightarrow> reviewDuration ds i = Some (ds ! i)"
  by (simp add: reviewDuration_def array_at_def atIndex_nonneg)

lemma commitDuration_back:
  "0 < i \<Longrightarrow> i \<le> length ds \<Longrightarrow> commitDuration ds i = Some (ds ! (length ds - i))"
  by (simp add: commitDuration_def array_at_def atIndex_neg)

lemma commitDuration_zero: "ds \<noteq> [] \<Longrightarrow> commitDuration ds 0 = Some (ds ! 0)"
  by (simp add: commitDuration_def array_at_def atIndex_def)

lemma example_durations:
  "distributeTimeEvenly noExponent exampleDraws 3 160 5 = [''52.83'', ''53.83'', ''53.33'']"
  by (simp add: alloc_eval exampleDraws_def)

text \<open>
  C2. The pairing on the example (two commits, one review, durations 52.83, 53.83 and
  53.33): the review reads index 0, the second commit reads the last duration, and the
  first commit reads \<open>durations.at(-0)\<close>, which is index 0 again, at the front of the
  sequence and not at its back. The first commit row and the review row both carry
  52.83.
\<close>

theorem commitDuration_first_reads_front:
  \<open>distributeTimeEvenly noExponent exampleDraws 3 160 5 = [''52.83'', ''53.83'', ''53.33'']
   \<and> atIndex 3 (- int 0) = Some 0
   \<and> commitDuration [''52.83'', ''53.83'', ''53.33''] 0 = Some ''52.83''
   \<and> reviewDuration [''52.83'', ''53.83'', ''53.33''] 0 = Some ''52.83''
   \<and> commitDuration [''52.83'', ''53.83'', ''53.33''] 1 = Some ''53.33''
   \<and> map row_data (reviewRows (Config [''Alice'']) [''52.83'', ''53.83'', ''53.33''] exampleReviews)
       = [''Gwitchr/fillTimesheet,"March 10, 2024","Add tests","Analyzed Pull Request and added comments",52.83'']
   \<and> map row_data (commitRows (Config [''Alice'']) [''52.83'', ''53.83'', ''53.33''] exampleCommits)
       = [''timesheet,"March 5, 2024","Fix parser",Worked on project and PBI associated,52.83'',
          ''timesheet,"March 20, 2024","Fix parser",Worked on project and PBI associated,53.33'']\<close>
  unfolding example_durations
  by (simp add: at_eval commitRows_def reviewRows_def exampleCommits_def exampleReviews_def
      commitOf_def reviewOf_def Config_def)

lemma review_durations_take:
  "r \<le> length ds \<Longrightarrow> map (reviewDuration ds) [0..<r] = map Some (take r ds)"
  by (rule nth_equalityI) (simp_all add: reviewDuration_nth)

lemma commit_durations_back:
  assumes "length ds = r + c" and "0 < r"
  shows "map (commitDuration ds) [Suc 0..<c] = map Some (rev (drop (Suc r) ds))"
proof (rule nth_equalityI)
  show "length (map (commitDuration ds) [Suc 0..<c]) = length (map Some (rev (drop (Suc r) ds)))"
    using assms by simp
next
  fix j
  assume "j < length (map (commitDuration ds) [Suc 0..<c])"
  then have j: "j < c - 1" by simp
  then have "commitDuration ds (Suc j) = Some (ds ! (length ds - Suc j))"
    using assms by (intro commitDuration_back) simp_all
  moreover have "Suc r + (c - Suc 0 - Suc j) = length ds - Suc j"
    using j assms by simp
  then have "rev (drop (Suc r) ds) ! j = ds ! (length ds - Suc j)"
    using j assms by (simp add: rev_nth)
  ultimately show "map (commitDuration ds) [Suc 0..<c] ! j = map Some (rev (drop (Suc r) ds)) ! j"
    using j assms by simp
qed

lemma rowDurations_split:
  assumes "0 < r" and "0 < c" and "length ds = r + c"
  shows "rowDurations ds r c =
         map Some (take r ds) @ Some (ds ! 0) # map Some (rev (drop (Suc r) ds))"
proof -
  have "[0..<c] = 0 # [Suc 0..<c]"
    using assms(2) by (simp add: upt_rec)
  moreover have "ds \<noteq> []" using assms by auto
  moreover have "map (commitDuration ds) [Suc 0..<c] = map Some (rev (drop (Suc r) ds))"
    using assms(3,1) by (rule commit_durations_back)
  ultimately show ?thesis
    using assms
    by (simp add: rowDurations_def review_durations_take commitDuration_zero)
qed

lemma mset_rowDurations:
  assumes "0 < r" and "0 < c" and "length ds = r + c"
  shows "mset (rowDurations ds r c) + {#Some (ds ! r)#} = mset (map Some ds) + {#Some (ds ! 0)#}"
proof -
  have e: "take r ds @ ds ! r # drop (Suc r) ds = ds"
    using assms by (simp add: id_take_nth_drop [symmetric])
  have "mset (map Some ds) = mset (map Some (take r ds @ ds ! r # drop (Suc r) ds))"
    by (simp only: e)
  also have "\<dots> = mset (map Some (take r ds)) + {#Some (ds ! r)#}
      + mset (map Some (drop (Suc r) ds))"
    by simp
  finally show ?thesis
    by (simp add: rowDurations_split [OF assms])
qed

text \<open>
  C9, as stated, fails in its last part: when the durations of index 0 and of index
  \<open>r\<close> (the number of reviews) are the same string, the row durations are a
  permutation of the allocation sequence. One commit, one review and three equal draws
  give the durations 78.75 and 78.75, and both rows carry 78.75.
\<close>

theorem rowDurations_permutation_example:
  "distributeTimeEvenly noExponent (drawsFrom [1 / 4, 1 / 4, 1 / 4]) 2 160 5 = [''78.75'', ''78.75'']
   \<and> commitDuration [''78.75'', ''78.75''] 0 = Some ''78.75''
   \<and> reviewDuration [''78.75'', ''78.75''] 0 = Some ''78.75''
   \<and> rowDurations [''78.75'', ''78.75''] 1 1 = map Some [''78.75'', ''78.75'']
   \<and> mset (rowDurations [''78.75'', ''78.75''] 1 1) = mset (map Some [''78.75'', ''78.75''])"
proof -
  have "rowDurations [''78.75'', ''78.75''] 1 1 = map Some [''78.75'', ''78.75'']"
    by (simp add: rowDurations_def at_eval)
  then show ?thesis
    by (simp add: alloc_eval at_eval)
qed

text \<open>
  C9, amended. With at least one review and one commit, and one duration per entry:
  the first commit row and the first review row both carry the duration of index 0; no
  row reads index \<open>r\<close>, the number of reviews; the row durations are the allocation
  sequence with one occurrence of the duration of index \<open>r\<close> replaced by a second
  copy of the duration of index 0; so they are a permutation of the allocation sequence
  exactly when these two durations are equal.
\<close>

theorem rowDurations_aliasing:
  assumes "0 < r" and "0 < c" and "length ds = r + c"
  shows "commitDuration ds 0 = Some (ds ! 0) \<and> reviewDuration ds 0 = Some (ds ! 0)
    \<and> (\<forall>i<r. atIndex (length ds) (int i) \<noteq> Some r)
    \<and> (\<forall>i<c. atIndex (length ds) (- int i) \<noteq> Some r)
    \<and> mset (rowDurations ds r c) + {#Some (ds ! r)#} = mset (map Some ds) + {#Some (ds ! 0)#}
    \<and> (mset (rowDurations ds r c) = mset (map Some ds) \<longleftrightarrow> ds ! 0 = ds ! r)"
proof -
  have ne: "ds \<noteq> []" using assms by auto
  have a: "commitDuration ds 0 = Some (ds ! 0)"
    using ne by (rule commitDuration_zero)
  have b: "reviewDuration ds 0 = Some (ds ! 0)"
    using ne by (simp add: reviewDuration_nth)
  have c: "\<forall>i<r. atIndex (length ds) (int i) \<noteq> Some r"
    using assms by (simp add: atIndex_nonneg)
  have d: "\<forall>i<c. atIndex (length ds) (- int i) \<noteq> Some r"
  proof (intro allI impI)
    fix i assume i: "i < c"
    show "atIndex (length ds) (- int i) \<noteq> Some r"
    proof (cases "i = 0")
      case True
      then show ?thesis using assms by (simp add: atIndex_def)
    next
      case False
      then have "atIndex (length ds) (- int i) = Some (length ds - i)"
        using i assms by (intro atIndex_neg) simp_all
      then show ?thesis using i assms by simp
    qed
  qed
  have m: "mset (rowDurations ds r c) + {#Some (ds ! r)#} = mset (map Some ds) + {#Some (ds ! 0)#}"
    using assms by (rule mset_rowDurations)
  have "mset (rowDurations ds r c) = mset (map Some ds) \<longleftrightarrow> ds ! 0 = ds ! r"
  proof
    assume "mset (rowDurations ds r c) = mset (map Some ds)"
    with m have "{#Some (ds ! r)#} = {#Some (ds ! 0)#}" by simp
    then show "ds ! 0 = ds ! r" by simp
  next
    assume "ds ! 0 = ds ! r"
    with m show "mset (rowDurations ds r c) = mset (map Some ds)" by simp
  qed
  with a b c d m show ?thesis by simp
qed

theorem rowDurations_aliasing_witness:
  "rowDurations [''52.83'', ''53.83'', ''53.33''] 1 2 = [Some ''52.83'', Some ''52.83'', Some ''53.33'']
   \<and> mset (rowDurations [''52.83'', ''53.83'', ''53.33''] 1 2)
       \<noteq> mset (map Some [''52.83'', ''53.83'', ''53.33''])
   \<and> commitDuration [''52.83'', ''53.83'', ''53.33''] 0 = reviewDuration [''52.83'', ''53.83'', ''53.33''] 0"
proof -
  have "rowDurations [''52.83'', ''53.83'', ''53.33''] 1 2
      = [Some ''52.83'', Some ''52.83'', Some ''53.33'']"
    by (simp add: rowDurations_def at_eval upt_rec)
  moreover have "[''52.83'', ''53.83'', ''53.33''] ! 0 \<noteq> [''52.83'', ''53.83'', ''53.33''] ! 1"
    by simp
  ultimately show ?thesis
    using rowDurations_aliasing [of 1 2 "[''52.83'', ''53.83'', ''53.33'']"] by simp
qed

section \<open>Properties of the row assembly\<close>

lemma map_snd_of_enumerate: "map (\<lambda>p. f (snd p)) (enumerate n xs) = map f xs"
  by (induction xs arbitrary: n) simp_all

lemma row_date_commitRows: "map row_date (commitRows cfg ds cs) = map commit_rawDate cs"
  by (simp add: commitRows_def case_prod_unfold comp_def map_snd_of_enumerate)

lemma row_date_reviewRows: "map row_date (reviewRows cfg ds rs) = map review_rawDate rs"
  by (simp add: reviewRows_def case_prod_unfold comp_def map_snd_of_enumerate)

text \<open>
  C6. The assembled rows are sorted by ascending timestamp, they are the review rows
  and the commit rows, and the rows of any one timestamp \<open>t\<close> are the review rows of
  that timestamp, in their order, followed by the commit rows of that timestamp, in
  their order. The timestamp of a row is the \<open>rawDate\<close> of its entry.
\<close>

theorem allRows_sorted_stable:
  "sorted (map row_date (allRows cfg ds cs rs))
   \<and> mset (allRows cfg ds cs rs) = mset (reviewRows cfg ds rs) + mset (commitRows cfg ds cs)
   \<and> filter (\<lambda>x. row_date x = t) (allRows cfg ds cs rs)
       = filter (\<lambda>x. row_date x = t) (reviewRows cfg ds rs)
         @ filter (\<lambda>x. row_date x = t) (commitRows cfg ds cs)
   \<and> map row_date (reviewRows cfg ds rs) = map review_rawDate rs
   \<and> map row_date (commitRows cfg ds cs) = map commit_rawDate cs"
  by (simp add: allRows_def sort_key_stable row_date_commitRows row_date_reviewRows)

text \<open>The example of the specification: a review and a commit of the same instant.\<close>

lemma allRows_tie_example:
  \<open>map row_data (allRows (Config []) [''80.00'', ''80.00'']
       [commitOf ''Alice'' 1709251200000 ''March 1, 2024'']
       [reviewOf 1709251200000 ''March 1, 2024''])
     = [''Gwitchr/fillTimesheet,"March 1, 2024","Add tests","Analyzed Pull Request and added comments",80.00'',
        ''timesheet,"March 1, 2024","Fix parser",Worked on project and PBI associated,80.00'']\<close>
  by (simp add: allRows_def at_eval commitRows_def reviewRows_def example_eval)

section \<open>Properties of the serialisation\<close>

lemma join_last: "ls \<noteq> [] \<Longrightarrow> suffix (last ls) (join sep ls)"
proof (induction sep ls rule: join.induct)
  case (3 sep x y ys)
  then have "suffix (last (y # ys)) (join sep (y # ys))" by simp
  then have "suffix (last (y # ys)) (x @ sep @ join sep (y # ys))"
    by (metis suffix_appendI)
  then show ?case by simp
qed simp_all

lemma length_commitRows: "length (commitRows cfg ds cs) = length cs"
  by (simp add: commitRows_def)

lemma length_reviewRows: "length (reviewRows cfg ds rs) = length rs"
  by (simp add: reviewRows_def)

lemma length_allRows: "length (allRows cfg ds cs rs) = length cs + length rs"
  by (simp add: allRows_def length_commitRows length_reviewRows)

lemma data_commitRows:
  "map row_data (commitRows cfg ds cs) =
   map (\<lambda>(i, c). csvLine [commit_project c, quoted (commit_date c), quoted (commit_message c),
                          commitComment cfg, templ (commitDuration ds i)]) (enumerate 0 cs)"
  by (simp add: commitRows_def csvLine_def quoted_def case_prod_unfold)

lemma data_reviewRows:
  "map row_data (reviewRows cfg ds rs) =
   map (\<lambda>(i, r). csvLine [review_repo r, quoted (review_date r), quoted (review_pullRequest r),
                          quoted (reviewComment cfg), templ (reviewDuration ds i)]) (enumerate 0 rs)"
  by (simp add: reviewRows_def csvLine_def quoted_def case_prod_unfold)

lemma example_allRows:
  \<open>allRows (Config [''Alice'']) [''52.83'', ''53.83'', ''53.33''] exampleCommits exampleReviews
     = [\<lparr>row_data = ''timesheet,"March 5, 2024","Fix parser",Worked on project and PBI associated,52.83'',
          row_date = 1709596800000\<rparr>,
        \<lparr>row_data = ''Gwitchr/fillTimesheet,"March 10, 2024","Add tests","Analyzed Pull Request and added comments",52.83'',
          row_date = 1710028800000\<rparr>,
        \<lparr>row_data = ''timesheet,"March 20, 2024","Fix parser",Worked on project and PBI associated,53.33'',
          row_date = 1710892800000\<rparr>]\<close>
  by (simp add: allRows_def at_eval commitRows_def reviewRows_def example_eval)

text \<open>
  C7. The content written is the header line, a newline, and the lines of the rows
  separated by single newlines: one line per entry, each a comma-separated line whose
  date and message (or pull request title) are wrapped in double quotes. When there is
  a row the content ends with the line of the last row, with nothing after it; when
  there is none it is the header line and its newline.
\<close>

theorem writeToCSV_shape:
  assumes "ds = distributeTimeEvenly nts rnd (length cs + length rs) (totalHours cfg)
                  (allowedVariation cfg)"
    and "rows = allRows cfg ds cs rs"
  shows "writeToCSV nts rnd cfg cs rs
           = ''Project/Repo,Date,Commit/Review Message,Comments,Time used'' @ [CHR 0x0A]
             @ join [CHR 0x0A] (map row_data rows)
    \<and> length rows = length cs + length rs
    \<and> mset (map row_data rows)
        = mset (map (\<lambda>(i, r). csvLine [review_repo r, quoted (review_date r),
                      quoted (review_pullRequest r), quoted (reviewComment cfg),
                      templ (reviewDuration ds i)]) (enumerate 0 rs))
          + mset (map (\<lambda>(i, c). csvLine [commit_project c, quoted (commit_date c),
                      quoted (commit_message c), commitComment cfg,
                      templ (commitDuration ds i)]) (enumerate 0 cs))
    \<and> (rows \<noteq> [] \<longrightarrow> suffix (row_data (last rows)) (writeToCSV nts rnd cfg cs rs))
    \<and> (rows = [] \<longrightarrow> writeToCSV nts rnd cfg cs rs
          = ''Project/Repo,Date,Commit/Review Message,Comments,Time used'' @ [CHR 0x0A])"
proof -
  have w: "writeToCSV nts rnd cfg cs rs
      = ''Project/Repo,Date,Commit/Review Message,Comments,Time used'' @ [CHR 0x0A]
        @ join [CHR 0x0A] (map row_data rows)"
    using assms by (simp add: writeToCSV_def csvHeader_def Let_def)
  have l: "length rows = length cs + length rs"
    using assms(2) by (simp add: length_allRows)
  have "mset (map row_data rows)
      = mset (map row_data (reviewRows cfg ds rs)) + mset (map row_data (commitRows cfg ds cs))"
    using assms(2) by (simp add: allRows_def)
  then have m: "mset (map row_data rows)
        = mset (map (\<lambda>(i, r). csvLine [review_repo r, quoted (review_date r),
                      quoted (review_pullRequest r), quoted (reviewComment cfg),
                      templ (reviewDuration ds i)]) (enumerate 0 rs))
          + mset (map (\<lambda>(i, c). csvLine [commit_project c, quoted (commit_date c),
                      quoted (commit_message c), commitComment cfg,
                      templ (commitDuration ds i)]) (enumerate 0 cs))"
    by (simp only: data_commitRows data_reviewRows)
  have s: "suffix (row_data (last rows)) (writeToCSV nts rnd cfg cs rs)" if "rows \<noteq> []"
  proof -
    have "suffix (last (map row_data rows)) (join [CHR 0x0A] (map row_data rows))"
      using that by (intro join_last) simp
    then have "suffix (row_data (last rows)) (join [CHR 0x0A] (map row_data rows))"
      using that by (simp add: last_map)
    then show ?thesis
      unfolding w by (metis suffix_appendI)
  qed
  have e: "writeToCSV nts rnd cfg cs rs
          = ''Project/Repo,Date,Commit/Review Message,Comments,Time used'' @ [CHR 0x0A]"
    if "rows = []"
    using that w by simp
  from w l m s e show ?thesis by blast
qed

theorem writeToCSV_shape_witness:
  \<open>writeToCSV noExponent exampleDraws (Config [''Alice'']) exampleCommits exampleReviews
     = ''Project/Repo,Date,Commit/Review Message,Comments,Time used'' @ [CHR 0x0A]
       @ ''timesheet,"March 5, 2024","Fix parser",Worked on project and PBI associated,52.83'' @ [CHR 0x0A]
       @ ''Gwitchr/fillTimesheet,"March 10, 2024","Add tests","Analyzed Pull Request and added comments",52.83'' @ [CHR 0x0A]
       @ ''timesheet,"March 20, 2024","Fix parser",Worked on project and PBI associated,53.33''
   \<and> suffix ''timesheet,"March 20, 2024","Fix parser",Worked on project and PBI associated,53.33''
        (writeToCSV noExponent exampleDraws (Config [''Alice'']) exampleCommits exampleReviews)\<close>
proof -
  have d: "distributeTimeEvenly noExponent exampleDraws
      (length exampleCommits + length exampleReviews)
      (totalHours (Config [''Alice''])) (allowedVariation (Config [''Alice'']))
      = [''52.83'', ''53.83'', ''53.33'']"
  proof -
    have "length exampleCommits + length exampleReviews = 3"
      by (simp add: exampleCommits_def exampleReviews_def)
    then show ?thesis
      by (simp add: Config_def example_durations)
  qed
  note w = writeToCSV_shape [OF refl refl, of noExponent exampleDraws "Config [''Alice'']"
      exampleCommits exampleReviews]
  have c: "writeToCSV noExponent exampleDraws (Config [''Alice'']) exampleCommits exampleReviews
      = ''Project/Repo,Date,Commit/Review Message,Comments,Time used'' @ [CHR 0x0A]
        @ join [CHR 0x0A] (map row_data (allRows (Config [''Alice''])
            [''52.83'', ''53.83'', ''53.33''] exampleCommits exampleReviews))"
    using w unfolding d by (rule conjunct1)
  have "allRows (Config [''Alice'']) [''52.83'', ''53.83'', ''53.33''] exampleCommits exampleReviews
        \<noteq> [] \<longrightarrow>
      suffix (row_data (last (allRows (Config [''Alice'']) [''52.83'', ''53.83'', ''53.33'']
          exampleCommits exampleReviews)))
        (writeToCSV noExponent exampleDraws (Config [''Alice'']) exampleCommits exampleReviews)"
    using w unfolding d by (rule conjunct1 [OF conjunct2 [OF conjunct2 [OF conjunct2]]])
  then have \<open>suffix ''timesheet,"March 20, 2024","Fix parser",Worked on project and PBI associated,53.33''
      (writeToCSV noExponent exampleDraws (Config [''Alice'']) exampleCommits exampleReviews)\<close>
    unfolding example_allRows by simp
  moreover have \<open>writeToCSV noExponent exampleDraws (Config [''Alice'']) exampleCommits exampleReviews
     = ''Project/Repo,Date,Commit/Review Message,Comments,Time used'' @ [CHR 0x0A]
       @ ''timesheet,"March 5, 2024","Fix parser",Worked on project and PBI associated,52.83'' @ [CHR 0x0A]
       @ ''Gwitchr/fillTimesheet,"March 10, 2024","Add tests","Analyzed Pull Request and added comments",52.83'' @ [CHR 0x0A]
       @ ''timesheet,"March 20, 2024","Fix parser",Worked on project and PBI associated,53.33''\<close>
    unfolding c example_allRows by simp
  ultimately show ?thesis by (rule conjI [rotated])
qed

text \<open>
  C10. In a commit row the comment \<open>commitComment\<close> stands between two commas without
  quotes; in a review row the comment \<open>reviewComment\<close> is wrapped in double quotes. Both
  are the fixed texts of the configuration.
\<close>

theorem comment_quoting:
  "(\<forall>i<length cs. row_data (commitRows cfg ds cs ! i)
       = commit_project (cs ! i) @ '','' @ quoted (commit_date (cs ! i)) @ '',''
         @ quoted (commit_message (cs ! i)) @ '','' @ commitComment cfg @ '',''
         @ templ (commitDuration ds i))
   \<and> (\<forall>j<length rs. row_data (reviewRows cfg ds rs ! j)
       = review_repo (rs ! j) @ '','' @ quoted (review_date (rs ! j)) @ '',''
         @ quoted (review_pullRequest (rs ! j)) @ '','' @ quoted (reviewComment cfg) @ '',''
         @ templ (reviewDuration ds j))
   \<and> commitComment (Config names) = ''Worked on project and PBI associated''
   \<and> reviewComment (Config names) = ''Analyzed Pull Request and added comments''"
  by (simp add: commitRows_def reviewRows_def quoted_def nth_enumerate_eq Config_def)

theorem comment_quoting_witness:
  \<open>row_data (commitRows (Config [''Alice'']) [''52.83'', ''53.83'', ''53.33''] exampleCommits ! 1)
     = ''timesheet,"March 20, 2024","Fix parser",Worked on project and PBI associated,53.33''
   \<and> row_data (reviewRows (Config [''Alice'']) [''52.83'', ''53.83'', ''53.33''] exampleReviews ! 0)
     = ''Gwitchr/fillTimesheet,"March 10, 2024","Add tests","Analyzed Pull Request and added comments",52.83''\<close>
  using comment_quoting [of exampleCommits "Config [''Alice'']" "[''52.83'', ''53.83'', ''53.33'']"
      exampleReviews "[''Alice'']"]
  by (simp add: example_eval quoted_def at_eval)

section \<open>Properties of the author filter\<close>

lemma array_includes_iff: "array_includes xs s \<longleftrightarrow> s \<in> set xs"
  by (induction xs) auto

lemma userCommits_filter:
  "userCommits cfg cs = filter (\<lambda>c. commit_author c \<in> set (author cfg)) cs"
  by (simp add: userCommits_def array_includes_iff)

lemma foldl_append_concat: "foldl (\<lambda>acc xs. acc @ f xs) a xss = a @ concat (map f xss)"
  by (induction xss arbitrary: a) simp_all

lemma allCommits_filter:
  "allCommits cfg fetched = filter (\<lambda>c. commit_author c \<in> set (author cfg)) (concat fetched)"
  by (simp add: allCommits_def foldl_append_concat userCommits_filter filter_concat)

text \<open>
  C8. The filter keeps exactly the commits whose author is equal, as a string, to an
  element of the allow-list, in their order; it keeps nothing when the allow-list is
  empty. The commits that reach \<open>writeToCSV\<close> are the kept commits of all projects, so
  a commit of author Bob is not among them when the allow-list is Alice alone.
\<close>

theorem userCommits_allow_list:
  "userCommits cfg cs = filter (\<lambda>c. commit_author c \<in> set (author cfg)) cs
   \<and> subseq (userCommits cfg cs) cs
   \<and> (author cfg = [] \<longrightarrow> userCommits cfg cs = [])
   \<and> allCommits cfg fetched
       = filter (\<lambda>c. commit_author c \<in> set (author cfg)) (concat fetched)
   \<and> (author cfg = [''Alice''] \<longrightarrow> commit_author c = ''Bob'' \<longrightarrow>
        c \<notin> set (allCommits cfg fetched))
   \<and> fillTimesheet nts rnd cfg fetched rs
       = writeToCSV nts rnd cfg
           (filter (\<lambda>c. commit_author c \<in> set (author cfg)) (concat fetched)) rs"
proof -
  have "subseq (userCommits cfg cs) cs"
    by (simp add: userCommits_filter)
  moreover have "c \<notin> set (allCommits cfg fetched)"
    if "author cfg = [''Alice'']" and "commit_author c = ''Bob''"
    using that by (simp add: allCommits_filter)
  ultimately show ?thesis
    by (simp add: userCommits_filter allCommits_filter fillTimesheet_def)
qed

theorem userCommits_allow_list_witness:
  "userCommits (Config [''Alice''])
     [commitOf ''Bob'' 1 ''d1'', commitOf ''Alice'' 2 ''d2'', commitOf ''alice'' 3 ''d3'',
      commitOf ''Alice'' 4 ''d4'']
     = [commitOf ''Alice'' 2 ''d2'', commitOf ''Alice'' 4 ''d4'']
   \<and> userCommits (Config []) [commitOf ''Bob'' 1 ''d1'', commitOf ''Alice'' 2 ''d2''] = []
   \<and> commitOf ''Bob'' 1 ''d1''
       \<notin> set (allCommits (Config [''Alice''])
                [[commitOf ''Bob'' 1 ''d1'', commitOf ''Alice'' 2 ''d2'']])
   \<and> allCommits (Config [''Alice'']) [[commitOf ''Bob'' 1 ''d1'', commitOf ''Alice'' 2 ''d2'']]
       = [commitOf ''Alice'' 2 ''d2'']"
  using userCommits_allow_list [of "Config [''Alice'']"
      "[commitOf ''Bob'' 1 ''d1'', commitOf ''Alice'' 2 ''d2'', commitOf ''alice'' 3 ''d3'',
        commitOf ''Alice'' 4 ''d4'']"
      "[[commitOf ''Bob'' 1 ''d1'', commitOf ''Alice'' 2 ''d2'']]" "commitOf ''Bob'' 1 ''d1''"]
    userCommits_allow_list [of "Config []"
      "[commitOf ''Bob'' 1 ''d1'', commitOf ''Alice'' 2 ''d2'']"]
  by (simp add: Config_def commitOf_def)

end
